theory Spec2Isabelle
  imports Main
begin

section \<open>Python primitives used by subset\_beagle.py\<close>

text \<open>
  Python strings are modelled as HOL strings: one \<^typ>\<open>char\<close> stands for one character of
  the text (a code point below 256), which is exact for the ASCII sample names and file
  names the tool is used with.
\<close>

abbreviation TAB :: char where "TAB \<equiv> CHR 0x09"
abbreviation LF :: char where "LF \<equiv> CHR 0x0A"
abbreviation CR :: char where "CR \<equiv> CHR 0x0D"
abbreviation DQUOTE :: char where "DQUOTE \<equiv> CHR 0x22"
abbreviation SQUOTE :: char where "SQUOTE \<equiv> CHR 0x27"
abbreviation BACKSLASH :: char where "BACKSLASH \<equiv> CHR 0x5C"

text \<open>
  \<^verbatim>\<open>s.split(sep)\<close> with a one-character separator: the result always has one more element
  than the string has separators, so the empty string gives one empty field.
\<close>

fun split_sep :: "char \<Rightarrow> string \<Rightarrow> string list" where
  "split_sep sep [] = [[]]"
| "split_sep sep (c # cs) =
     (if c = sep then [] # split_sep sep cs
      else (case split_sep sep cs of
              w # ws \<Rightarrow> (c # w) # ws
            | [] \<Rightarrow> [[c]]))"

text \<open>
  \<^verbatim>\<open>range(start, stop, step)\<close> for a positive step, as the list of the values it yields.
  Python raises ValueError for step 0; the program only uses step 3.
\<close>

function py_range :: "nat \<Rightarrow> nat \<Rightarrow> nat \<Rightarrow> nat list" where
  "py_range start stop step =
     (if 0 < step \<and> start < stop then start # py_range (start + step) stop step else [])"
  by pat_completeness auto
termination
  by (relation "measure (\<lambda>(start, stop, step). stop - start)") auto

declare py_range.simps [simp del]

text \<open>\<^verbatim>\<open>s.endswith(suffix)\<close>.\<close>

definition endswith :: "string \<Rightarrow> string \<Rightarrow> bool" where
  "endswith s suffix =
     (length suffix \<le> length s \<and> drop (length s - length suffix) s = suffix)"

text \<open>
  \<^verbatim>\<open>str.isspace\<close> on one character: the whitespace characters below code point 256, which
  are the ones \<^verbatim>\<open>str.strip()\<close> removes.
\<close>

definition py_isspace :: "char \<Rightarrow> bool" where
  "py_isspace c =
     (let n = (of_char c :: nat)
      in (9 \<le> n \<and> n \<le> 13) \<or> (28 \<le> n \<and> n \<le> 32) \<or> n = 133 \<or> n = 160)"

definition py_strip :: "string \<Rightarrow> string" where
  "py_strip s = rev (dropWhile py_isspace (rev (dropWhile py_isspace s)))"

text \<open>
  Text-mode reading with the default \<^verbatim>\<open>newline=None\<close>: the line ends CR LF and CR are
  translated to LF before the program sees the text.
\<close>

fun universal_newlines :: "string \<Rightarrow> string" where
  "universal_newlines [] = []"
| "universal_newlines [c] = (if c = CR then [LF] else [c])"
| "universal_newlines (c # d # ds) =
     (if c = CR \<and> d = LF then LF # universal_newlines ds
      else if c = CR then LF # universal_newlines (d # ds)
      else c # universal_newlines (d # ds))"

text \<open>
  The lines a text file object yields when iterated (\<^verbatim>\<open>for line in f\<close>): each line keeps
  its terminating LF, the last line has none when the text does not end with LF.
\<close>

fun text_lines :: "string \<Rightarrow> string list" where
  "text_lines [] = []"
| "text_lines (c # cs) =
     (if c = LF then [LF] # text_lines cs
      else (case text_lines cs of
              [] \<Rightarrow> [[c]]
            | l # ls \<Rightarrow> (c # l) # ls))"

text \<open>\<^verbatim>\<open>f.readline()\<close> on a freshly opened file: the first line, or the empty string.\<close>

definition readline :: "string \<Rightarrow> string" where
  "readline text = (case text_lines text of [] \<Rightarrow> [] | l # ls \<Rightarrow> l)"

text \<open>\<^verbatim>\<open>str(n)\<close> for an integer, and \<^verbatim>\<open>sep.join(xs)\<close>.\<close>

definition digit_char :: "nat \<Rightarrow> char" where
  "digit_char d = char_of (48 + d)"

function str_nat :: "nat \<Rightarrow> string" where
  "str_nat n = (if n < 10 then [digit_char n] else str_nat (n div 10) @ [digit_char (n mod 10)])"
  by pat_completeness auto
termination
  by (relation "measure (\<lambda>n. n)") auto

declare str_nat.simps [simp del]

definition str_int :: "int \<Rightarrow> string" where
  "str_int i = (if i < 0 then CHR ''-'' # str_nat (nat (- i)) else str_nat (nat i))"

fun py_join :: "string \<Rightarrow> string list \<Rightarrow> string" where
  "py_join sep [] = []"
| "py_join sep [x] = x"
| "py_join sep (x # y # ys) = x @ sep @ py_join sep (y # ys)"

section \<open>Errors\<close>

text \<open>
  Every \<^verbatim>\<open>sys.exit(1)\<close> of the program is one constructor, named after the message printed
  before it:
  \<^item> \<open>SampleListNotFound\<close>: "Error: Sample list file ... not found."
  \<^item> \<open>SampleListReadError\<close>: "Error reading sample list file: ..."
  \<^item> \<open>EmptySampleList\<close>: "Error: No samples found in the sample list file."
  \<^item> \<open>InputNotFound\<close>: "Error: Input file ... not found."
  \<^item> \<open>InputReadError\<close>: "Error reading input file: ..."
  \<^item> \<open>EmptySelection\<close>: "Error: No samples would remain after subsetting."
  \<^item> \<open>TransformFailed rc\<close>: "Error: AWK command failed with return code rc"
  \<^item> \<open>OutputNotCreated\<close>: "Error: Output file was not created."
  \<^item> \<open>UnexpectedError\<close>: "Unexpected error: ..."
  \<^item> \<open>UncaughtException\<close>: an exception outside every \<^verbatim>\<open>try\<close>, ending the run with a
    traceback.
\<close>

datatype error =
    SampleListNotFound
  | SampleListReadError
  | EmptySampleList
  | InputNotFound
  | InputReadError
  | EmptySelection
  | TransformFailed int
  | OutputNotCreated
  | UnexpectedError
  | UncaughtException

section \<open>Column selection: find\_columns\_to\_keep\<close>

record selection =
  columns_to_keep :: "int list"
  all_samples :: "string set"
  samples_kept :: "string set"

text \<open>
  The body of the \<^verbatim>\<open>for i in range(3, len(fields), 3)\<close> loop, lines 82 to 93. The guard
  \<^verbatim>\<open>if i < len(fields)\<close> is kept as the source has it; when it fails nothing is done.
\<close>

definition loop_body :: "string list \<Rightarrow> string set \<Rightarrow> bool \<Rightarrow> nat \<Rightarrow> selection \<Rightarrow> selection" where
  "loop_body flds sample_list remove_mode i st =
     (if i < length flds then
        (let sample_id = flds ! i;
             st1 = st\<lparr>all_samples := insert sample_id (all_samples st)\<rparr>;
             should_keep = (if remove_mode then sample_id \<notin> sample_list
                            else sample_id \<in> sample_list)
         in if should_keep then
              st1\<lparr>columns_to_keep := columns_to_keep st1 @ [int i + 1, int i + 2, int i + 3],
                  samples_kept := insert sample_id (samples_kept st1)\<rparr>
            else st1)
      else st)"

definition initial_selection :: selection where
  "initial_selection = \<lparr>columns_to_keep = [1, 2, 3], all_samples = {}, samples_kept = {}\<rparr>"

definition selection_loop :: "string list \<Rightarrow> string set \<Rightarrow> bool \<Rightarrow> selection" where
  "selection_loop flds sample_list remove_mode =
     fold (loop_body flds sample_list remove_mode) (py_range 3 (length flds) 3)
       initial_selection"

definition find_columns_to_keep ::
  "string \<Rightarrow> string set \<Rightarrow> bool \<Rightarrow> error + (int list \<times> string set \<times> string set)" where
  "find_columns_to_keep header_line sample_list remove_mode =
     (let flds = split_sep TAB header_line;
          st = selection_loop flds sample_list remove_mode;
          samples_removed = all_samples st - samples_kept st
      in if samples_kept st = {} then Inl EmptySelection
         else Inr (columns_to_keep st, samples_kept st, samples_removed))"

text \<open>
  The sample IDs of a header, in header order: the fields the loop reads, at positions
  3, 6, 9, ... below the field count.
\<close>

definition sample_ids :: "string \<Rightarrow> string list" where
  "sample_ids header_line =
     (let flds = split_sep TAB header_line
      in map (\<lambda>i. flds ! i) (py_range 3 (length flds) 3))"

section \<open>The world outside the program\<close>

text \<open>
  What the program reads from and does to its environment:
  \<^item> \<open>files\<close>: the paths that exist, with their contents (\<^verbatim>\<open>os.path.exists\<close> is membership
    in the domain, \<^verbatim>\<open>os.path.getsize\<close> the length of the contents);
  \<^item> \<open>read_fails\<close>: the existing paths whose opening or reading raises an exception other
    than FileNotFoundError (a permission or decoding error);
  \<^item> \<open>gunzip\<close>: what \<^verbatim>\<open>gzip.open\<close> decodes from a file's contents, \<open>None\<close> when it raises;
  \<^item> \<open>pv_available\<close>: the result of \<^verbatim>\<open>check_pv_available\<close>;
  \<^item> \<open>run_command\<close>: the external pipeline started by \<^verbatim>\<open>subprocess.Popen\<close>: \<open>None\<close> when
    starting it raises, otherwise its return code and the files it leaves behind.
\<close>

type_synonym filesystem = "string \<rightharpoonup> string"

record env =
  files :: filesystem
  read_fails :: "string \<Rightarrow> bool"
  gunzip :: "string \<Rightarrow> string option"
  pv_available :: bool
  run_command :: "string list \<Rightarrow> filesystem \<Rightarrow> (int \<times> filesystem) option"

definition path_exists :: "filesystem \<Rightarrow> string \<Rightarrow> bool" where
  "path_exists fs path = (fs path \<noteq> None)"

definition getsize :: "filesystem \<Rightarrow> string \<Rightarrow> nat option" where
  "getsize fs path = map_option length (fs path)"

section \<open>Reading the sample list and the header\<close>

text \<open>One iteration of the loop of \<^verbatim>\<open>read_sample_list\<close>, lines 27 to 29.\<close>

definition add_sample_line :: "string \<Rightarrow> string set \<Rightarrow> string set" where
  "add_sample_line line samples =
     (let sample_id = py_strip line
      in if sample_id \<noteq> [] then insert sample_id samples else samples)"

definition read_sample_list :: "env \<Rightarrow> string \<Rightarrow> error + string set" where
  "read_sample_list e sample_list_file =
     (case files e sample_list_file of
        None \<Rightarrow> Inl SampleListNotFound
      | Some content \<Rightarrow>
          if read_fails e sample_list_file then Inl SampleListReadError
          else (let samples = fold add_sample_line (text_lines (universal_newlines content)) {}
                in if samples = {} then Inl EmptySampleList else Inr samples))"

definition read_header :: "env \<Rightarrow> string \<Rightarrow> error + string" where
  "read_header e input_file =
     (case files e input_file of
        None \<Rightarrow> Inl InputNotFound
      | Some content \<Rightarrow>
          if read_fails e input_file then Inl InputReadError
          else if endswith input_file ''.gz'' then
            (case gunzip e content of
               None \<Rightarrow> Inl InputReadError
             | Some text \<Rightarrow> Inr (py_strip (readline (universal_newlines text))))
          else Inr (py_strip (readline (universal_newlines content))))"

section \<open>The external pipeline: generate\_awk\_command\<close>

definition awk_script :: "int list \<Rightarrow> string" where
  "awk_script columns =
     (let column_refs = py_join '','' (map (\<lambda>col. CHR ''$'' # str_int col) columns)
      in ''{OFS='' @ [DQUOTE, BACKSLASH] @ ''t'' @ [DQUOTE] @ ''; print '' @ column_refs @ ''}'')"

definition output_is_gz :: "string \<Rightarrow> bool" where
  "output_is_gz output_file = (endswith output_file ''.gz'' \<or> endswith output_file ''.beagle.gz'')"

definition generate_awk_command ::
  "env \<Rightarrow> int list \<Rightarrow> string \<Rightarrow> string \<Rightarrow> bool \<Rightarrow> error + (string list \<times> bool)" where
  "generate_awk_command e columns input_file output_file use_progress =
     (let script = awk_script columns;
          input_is_gz = endswith input_file ''.gz'';
          out_gz = output_is_gz output_file
      in case getsize (files e) input_file of
           None \<Rightarrow> Inl UncaughtException
         | Some file_size \<Rightarrow>
             (let has_pv = (use_progress \<and> pv_available e);
                  pv_cmd = (if has_pv then ''pv -p -t -e -r -b -s '' @ str_nat file_size
                            else ''cat'');
                  awk = ''awk '' @ [SQUOTE] @ script @ [SQUOTE];
                  cmd =
                    (if input_is_gz \<and> out_gz then
                       ''zcat '' @ input_file @ '' | '' @ pv_cmd @ '' | '' @ awk
                         @ '' | gzip > '' @ output_file
                     else if input_is_gz \<and> \<not> out_gz then
                       ''zcat '' @ input_file @ '' | '' @ pv_cmd @ '' | '' @ awk
                         @ '' > '' @ output_file
                     else if \<not> input_is_gz \<and> out_gz then
                       pv_cmd @ '' '' @ input_file @ '' | '' @ awk
                         @ '' | gzip > '' @ output_file
                     else
                       pv_cmd @ '' '' @ input_file @ '' | '' @ awk
                         @ '' > '' @ output_file)
              in Inr ([''bash'', ''-c'', cmd], has_pv)))"

section \<open>The run: subset\_beagle\<close>

text \<open>
  What a successful run has printed and done. \<open>not_found_warning\<close> is \<open>Some s\<close> when the
  line "Warning: Samples not found in file" is printed, with the samples it lists (the
  program prints them sorted), and \<open>None\<close> when no warning is printed.
\<close>

record report =
  output_path :: string
  samples_in_list :: nat
  total_samples :: int
  kept_count :: nat
  removed_count :: "nat option"
  not_found_warning :: "string set option"
  total_columns :: nat
  command :: "string list"
  output_size :: nat
  files_after :: filesystem

text \<open>Lines 183 to 185: the output name the run uses.\<close>

definition effective_output_file :: "string \<Rightarrow> string" where
  "effective_output_file output_file =
     (if \<not> endswith output_file ''.beagle'' \<and> \<not> endswith output_file ''.beagle.gz''
      then output_file @ ''.beagle'' else output_file)"

text \<open>
  Lines 235 to 278: start the pipeline, wait for it, and check the output file. The result
  is the size of the output file and the files the pipeline left.
\<close>

definition run_transform :: "env \<Rightarrow> string list \<Rightarrow> string \<Rightarrow> error + (nat \<times> filesystem)" where
  "run_transform e cmd output_file =
     (case run_command e cmd (files e) of
        None \<Rightarrow> Inl UnexpectedError
      | Some (return_code, files') \<Rightarrow>
          if return_code \<noteq> 0 then Inl (TransformFailed return_code)
          else if path_exists files' output_file then
            (case getsize files' output_file of
               None \<Rightarrow> Inl UnexpectedError
             | Some n_bytes \<Rightarrow> Inr (n_bytes, files'))
          else Inl OutputNotCreated)"

text \<open>Lines 204 to 220: the warning about requested samples that are not in the file.\<close>

definition not_found_samples :: "bool \<Rightarrow> string set \<Rightarrow> string set \<Rightarrow> string set \<Rightarrow> string set" where
  "not_found_samples remove_mode sample_list samples_kept' samples_removed =
     (if remove_mode then sample_list - samples_removed - samples_kept'
      else sample_list - samples_kept')"

text \<open>Everything lines 188 to 266 print, collected once the pipeline has succeeded.\<close>

definition make_report ::
  "string \<Rightarrow> string set \<Rightarrow> string \<Rightarrow> bool \<Rightarrow> int list \<Rightarrow> string set \<Rightarrow> string set \<Rightarrow>
   string list \<Rightarrow> nat \<Rightarrow> filesystem \<Rightarrow> report" where
  "make_report output_file sample_list header_line remove_mode columns kept samples_removed
      cmd n_bytes files' =
     (let not_found = not_found_samples remove_mode sample_list kept samples_removed
      in \<lparr>output_path = output_file,
          samples_in_list = card sample_list,
          total_samples = (int (length (split_sep TAB header_line)) - 3) div 3,
          kept_count = card kept,
          removed_count =
            (if remove_mode then Some (card (sample_list \<inter> samples_removed)) else None),
          not_found_warning = (if not_found \<noteq> {} then Some not_found else None),
          total_columns = length columns,
          command = cmd,
          output_size = n_bytes,
          files_after = files'\<rparr>)"

definition subset_beagle :: "env \<Rightarrow> string \<Rightarrow> string \<Rightarrow> string \<Rightarrow> bool \<Rightarrow> error + report" where
  "subset_beagle e input_file sample_list_file output_file0 remove_mode =
     (if \<not> path_exists (files e) input_file then Inl InputNotFound
      else
        (let output_file = effective_output_file output_file0
         in case read_sample_list e sample_list_file of
              Inl err \<Rightarrow> Inl err
            | Inr sample_list \<Rightarrow>
           (case read_header e input_file of
              Inl err \<Rightarrow> Inl err
            | Inr header_line \<Rightarrow>
           (case find_columns_to_keep header_line sample_list remove_mode of
              Inl err \<Rightarrow> Inl err
            | Inr (columns, kept, samples_removed) \<Rightarrow>
           (case generate_awk_command e columns input_file output_file True of
              Inl err \<Rightarrow> Inl err
            | Inr (cmd, has_pv) \<Rightarrow>
           (case run_transform e cmd output_file of
              Inl err \<Rightarrow> Inl err
            | Inr (n_bytes, files') \<Rightarrow>
                Inr (make_report output_file sample_list header_line remove_mode columns kept
                       samples_removed cmd n_bytes files')))))))"

section \<open>Vocabulary for the properties\<close>

text \<open>
  The test of lines 86 to 88 on one sample ID, and the three 1-based columns the loop
  appends for the positions it keeps.
\<close>

definition keeps :: "string set \<Rightarrow> bool \<Rightarrow> string \<Rightarrow> bool" where
  "keeps sample_list remove_mode sample_id =
     (if remove_mode then sample_id \<notin> sample_list else sample_id \<in> sample_list)"

definition column_triples :: "nat list \<Rightarrow> int list" where
  "column_triples idxs = concat (map (\<lambda>i. [int i + 1, int i + 2, int i + 3]) idxs)"

text \<open>
  The header of the worked scenarios (three samples S1, S2, S3), and a header whose last
  sample group has two fields instead of three.
\<close>

definition scenario_header :: string where
  "scenario_header =
     ''m'' @ TAB # ''a1'' @ TAB # ''a2'' @ TAB # ''S1'' @ TAB # ''S1'' @ TAB # ''S1''
       @ TAB # ''S2'' @ TAB # ''S2'' @ TAB # ''S2'' @ TAB # ''S3'' @ TAB # ''S3'' @ TAB # ''S3''"

definition partial_header :: string where
  "partial_header = ''m'' @ TAB # ''a1'' @ TAB # ''a2'' @ TAB # ''S1'' @ TAB # ''S1''"

text \<open>
  Example environments for the scenarios: an input file holding the scenario header, a
  sample list with the given text, and a pipeline that returns 0 and leaves an output
  file with the given contents; and one whose input file exists but cannot be read.
  \<open>trimmed_lines\<close> are the whitespace-trimmed non-blank lines of a text.
\<close>

definition example_env :: "string \<Rightarrow> string \<Rightarrow> env" where
  "example_env list_text out_text =
     \<lparr>files = [''in.beagle'' \<mapsto> scenario_header @ [LF], ''list.txt'' \<mapsto> list_text],
      read_fails = (\<lambda>path. False),
      gunzip = (\<lambda>content. None),
      pv_available = False,
      run_command = (\<lambda>cmd fs. Some (0, fs(''out.beagle'' \<mapsto> out_text)))\<rparr>"

definition unreadable_input_env :: "string \<Rightarrow> env" where
  "unreadable_input_env list_text =
     \<lparr>files = [''in.beagle'' \<mapsto> scenario_header @ [LF], ''list.txt'' \<mapsto> list_text],
      read_fails = (\<lambda>path. path = ''in.beagle''),
      gunzip = (\<lambda>content. None),
      pv_available = False,
      run_command = (\<lambda>cmd fs. None)\<rparr>"

definition example_command :: "string \<Rightarrow> string list" where
  "example_command output_file =
     [''bash'', ''-c'',
      ''cat in.beagle | awk '' @ [SQUOTE] @ awk_script [1, 2, 3, 7, 8, 9] @ [SQUOTE]
        @ '' > '' @ output_file]"

definition trimmed_lines :: "string \<Rightarrow> string list" where
  "trimmed_lines content =
     filter (\<lambda>s. s \<noteq> []) (map py_strip (text_lines (universal_newlines content)))"

text \<open>The progress part of the pipeline, lines 142 to 145.\<close>

definition pv_command :: "bool \<Rightarrow> nat \<Rightarrow> string" where
  "pv_command has_pv file_size =
     (if has_pv then ''pv -p -t -e -r -b -s '' @ str_nat file_size else ''cat'')"

text \<open>The exit status of a run: \<^verbatim>\<open>sys.exit(1)\<close> on every error, 0 when the run returns.\<close>

definition exit_code :: "error + 'a \<Rightarrow> int" where
  "exit_code r = (case r of Inl err \<Rightarrow> 1 | Inr v \<Rightarrow> 0)"

section \<open>The selection loop in closed form\<close>

lemma py_range_bounds: "i \<in> set (py_range a n s) \<Longrightarrow> a \<le> i \<and> i < n"
proof (induction a n s rule: py_range.induct)
  case (1 start stop step)
  show ?case
  proof (cases "0 < step \<and> start < stop")
    case True
    with 1 show ?thesis
      by (subst (asm) (2) py_range.simps) auto
  next
    case False
    with 1(2) show ?thesis
      by (subst (asm) py_range.simps) simp
  qed
qed

lemma py_range_spaced: "sorted_wrt (\<lambda>a b. a + s \<le> b) (py_range a n s)"
proof (induction a n s rule: py_range.induct)
  case (1 start stop step)
  show ?case
  proof (cases "0 < step \<and> start < stop")
    case True
    have "\<forall>j \<in> set (py_range (start + step) stop step). start + step \<le> j"
      using py_range_bounds by blast
    with True 1 show ?thesis
      by (subst py_range.simps) simp
  next
    case False
    then show ?thesis by (subst py_range.simps) auto
  qed
qed

lemma loop_body_columns:
  "i < length flds \<Longrightarrow>
   columns_to_keep (loop_body flds S rm i st) =
     columns_to_keep st @ (if keeps S rm (flds ! i) then [int i + 1, int i + 2, int i + 3] else [])"
  by (simp add: loop_body_def keeps_def Let_def)

lemma loop_body_all:
  "i < length flds \<Longrightarrow>
   all_samples (loop_body flds S rm i st) = insert (flds ! i) (all_samples st)"
  by (simp add: loop_body_def Let_def)

lemma loop_body_kept:
  "i < length flds \<Longrightarrow>
   samples_kept (loop_body flds S rm i st) =
     (if keeps S rm (flds ! i) then insert (flds ! i) (samples_kept st) else samples_kept st)"
  by (simp add: loop_body_def keeps_def Let_def)

lemma fold_columns:
  "\<forall>i \<in> set idxs. i < length flds \<Longrightarrow>
   columns_to_keep (fold (loop_body flds S rm) idxs st) =
     columns_to_keep st @ column_triples (filter (\<lambda>i. keeps S rm (flds ! i)) idxs)"
  by (induction idxs arbitrary: st) (simp_all add: column_triples_def loop_body_columns)

lemma fold_all:
  "\<forall>i \<in> set idxs. i < length flds \<Longrightarrow>
   all_samples (fold (loop_body flds S rm) idxs st) =
     all_samples st \<union> set (map (\<lambda>i. flds ! i) idxs)"
  by (induction idxs arbitrary: st) (simp_all add: loop_body_all)

lemma fold_kept:
  "\<forall>i \<in> set idxs. i < length flds \<Longrightarrow>
   samples_kept (fold (loop_body flds S rm) idxs st) =
     samples_kept st \<union> set (filter (keeps S rm) (map (\<lambda>i. flds ! i) idxs))"
  by (induction idxs arbitrary: st) (auto simp add: loop_body_kept)

lemma range_in_fields: "\<forall>i \<in> set (py_range 3 (length flds) 3). i < length flds"
  using py_range_bounds by blast

lemma selection_columns:
  "columns_to_keep (selection_loop flds S rm) =
     [1, 2, 3] @ column_triples (filter (\<lambda>i. keeps S rm (flds ! i)) (py_range 3 (length flds) 3))"
  unfolding selection_loop_def
  by (simp add: fold_columns [OF range_in_fields] initial_selection_def)

lemma selection_all:
  "all_samples (selection_loop (split_sep TAB h) S rm) = set (sample_ids h)"
  unfolding selection_loop_def sample_ids_def Let_def
  by (simp add: fold_all [OF range_in_fields] initial_selection_def)

lemma selection_kept:
  "samples_kept (selection_loop (split_sep TAB h) S rm) = set (filter (keeps S rm) (sample_ids h))"
  unfolding selection_loop_def sample_ids_def Let_def
  by (simp add: fold_kept [OF range_in_fields] initial_selection_def)

lemma find_columns_to_keep_eq:
  "find_columns_to_keep h S rm =
     (if set (filter (keeps S rm) (sample_ids h)) = {} then Inl EmptySelection
      else Inr ([1, 2, 3] @ column_triples (filter (\<lambda>i. keeps S rm (split_sep TAB h ! i))
                   (py_range 3 (length (split_sep TAB h)) 3)),
                set (filter (keeps S rm) (sample_ids h)),
                set (sample_ids h) - set (filter (keeps S rm) (sample_ids h))))"
  unfolding find_columns_to_keep_def Let_def
  by (simp only: selection_columns selection_all selection_kept)

lemma length_column_triples: "length (column_triples idxs) = 3 * length idxs"
  by (induction idxs) (simp_all add: column_triples_def)

lemma column_triples_mem:
  "c \<in> set (column_triples idxs) \<Longrightarrow> \<exists>i \<in> set idxs. int i < c \<and> c \<le> int i + 3"
  by (induction idxs) (auto simp: column_triples_def)

lemma column_triples_increasing:
  "sorted_wrt (\<lambda>a b. a + 3 \<le> b) idxs \<Longrightarrow> sorted_wrt (<) (column_triples idxs)"
proof (induction idxs)
  case Nil
  then show ?case by (simp add: column_triples_def)
next
  case (Cons i idxs)
  have later: "\<forall>c \<in> set (column_triples idxs). int i + 3 < c"
  proof
    fix c assume "c \<in> set (column_triples idxs)"
    then obtain j where "j \<in> set idxs" "int j < c" using column_triples_mem by blast
    with Cons.prems show "int i + 3 < c" by auto
  qed
  have "column_triples (i # idxs) = [int i + 1, int i + 2, int i + 3] @ column_triples idxs"
    by (simp add: column_triples_def)
  with Cons later show ?case
    by (auto simp: sorted_wrt_append)
qed

lemma length_filter_map:
  "length (filter (\<lambda>i. P (f i)) xs) = length (filter P (map f xs))"
  by (induction xs) simp_all

lemma kept_card:
  "distinct (sample_ids h) \<Longrightarrow>
   card (set (filter (keeps S rm) (sample_ids h))) =
     length (filter (\<lambda>i. keeps S rm (split_sep TAB h ! i)) (py_range 3 (length (split_sep TAB h)) 3))"
proof -
  assume d: "distinct (sample_ids h)"
  have "card (set (filter (keeps S rm) (sample_ids h))) = length (filter (keeps S rm) (sample_ids h))"
    by (rule distinct_card) (simp add: d)
  also have "\<dots> = length (filter (\<lambda>i. keeps S rm (split_sep TAB h ! i))
                        (py_range 3 (length (split_sep TAB h)) 3))"
    by (simp add: sample_ids_def Let_def length_filter_map)
  finally show ?thesis .
qed

lemma scenario_keep:
  "find_columns_to_keep scenario_header {''S2''} False =
     Inr ([1, 2, 3, 7, 8, 9], {''S2''}, {''S1'', ''S3''})"
  unfolding scenario_header_def by code_simp

lemma scenario_remove:
  "find_columns_to_keep scenario_header {''S2''} True =
     Inr ([1, 2, 3, 4, 5, 6, 10, 11, 12], {''S1'', ''S3''}, {''S2''})"
  unfolding scenario_header_def by code_simp

lemma scenario_distinct: "distinct (sample_ids scenario_header)"
  unfolding scenario_header_def by code_simp

lemma scenario_length: "length (split_sep TAB scenario_header) = 12"
  unfolding scenario_header_def by code_simp

lemma py_range_length3: "length (py_range a n 3) = (n - a + 2) div 3"
proof (induction a n "3::nat" rule: py_range.induct)
  case (1 start stop)
  show ?case
  proof (cases "start < stop")
    case True
    with 1 have step: "length (py_range start stop 3) = Suc ((stop - (start + 3) + 2) div 3)"
      by (subst py_range.simps) simp
    show ?thesis
    proof (cases "start + 3 \<le> stop")
      case True
      then have "stop - start + 2 = (stop - (start + 3) + 2) + 3" by simp
      then have "(stop - start + 2) div 3 = Suc ((stop - (start + 3) + 2) div 3)"
        by (simp only: div_add_self2)
      with step show ?thesis by simp
    next
      case False
      with \<open>start < stop\<close> have "stop - (start + 3) = 0" and "stop - start = 1 \<or> stop - start = 2"
        by linarith+
      then have "(stop - start + 2) div 3 = Suc ((stop - (start + 3) + 2) div 3)"
        by auto
      with step show ?thesis by simp
    qed
  next
    case False
    then show ?thesis by (subst py_range.simps) simp
  qed
qed

lemma sample_count_well_formed:
  "3 \<le> length (split_sep TAB h) \<Longrightarrow> (length (split_sep TAB h) - 3) mod 3 = 0 \<Longrightarrow>
   int (length (sample_ids h)) = (int (length (split_sep TAB h)) - 3) div 3"
proof -
  let ?n = "length (split_sep TAB h)"
  assume a: "3 \<le> ?n" and m: "(?n - 3) mod 3 = 0"
  from m obtain k where k: "?n - 3 = 3 * k" by (auto simp: mod_eq_0_iff_dvd)
  have "length (sample_ids h) = (?n - 3 + 2) div 3"
    by (simp add: sample_ids_def Let_def py_range_length3)
  also have "\<dots> = k" unfolding k by simp
  finally have l: "length (sample_ids h) = k" .
  from a k have "int ?n - 3 = 3 * int k" by linarith
  then have "(int ?n - 3) div 3 = int k" by simp
  with l show ?thesis by simp
qed

section \<open>Properties of the column selection\<close>

text \<open>
  C1. When the sample IDs of the header are pairwise distinct and \<open>find_columns_to_keep\<close>
  returns, the column list starts with 1, 2, 3 and has length 3 + 3 * |samples_kept|, for
  every requested set and either mode (no assumption on the field count or on the
  requested set is needed). On the scenario header, keeping {S2} gives [1,2,3,7,8,9] and
  removing {S2} gives [1,2,3,4,5,6,10,11,12].
\<close>

theorem column_plan_shape:
  "(distinct (sample_ids h) \<longrightarrow>
    find_columns_to_keep h S rm = Inr (cols, kept, removed) \<longrightarrow>
      take 3 cols = [1, 2, 3] \<and> length cols = 3 + 3 * card kept)
   \<and> find_columns_to_keep scenario_header {''S2''} False =
        Inr ([1, 2, 3, 7, 8, 9], {''S2''}, {''S1'', ''S3''})
   \<and> find_columns_to_keep scenario_header {''S2''} True =
        Inr ([1, 2, 3, 4, 5, 6, 10, 11, 12], {''S1'', ''S3''}, {''S2''})"
proof -
  have general: "take 3 cols = [1, 2, 3] \<and> length cols = 3 + 3 * card kept"
    if d: "distinct (sample_ids h)" and r: "find_columns_to_keep h S rm = Inr (cols, kept, removed)"
  proof -
    from r have cols: "cols = [1, 2, 3] @ column_triples (filter (\<lambda>i. keeps S rm (split_sep TAB h ! i))
                   (py_range 3 (length (split_sep TAB h)) 3))"
      and kept: "kept = set (filter (keeps S rm) (sample_ids h))"
      by (simp_all add: find_columns_to_keep_eq split: if_splits)
    show ?thesis
      unfolding cols kept by (simp add: length_column_triples kept_card [OF d] del: set_filter)
  qed
  show ?thesis
    using general scenario_keep scenario_remove by blast
qed

theorem column_plan_shape_witness:
  "distinct (sample_ids scenario_header)
   \<and> find_columns_to_keep scenario_header {''S2''} False =
        Inr ([1, 2, 3, 7, 8, 9], {''S2''}, {''S1'', ''S3''})
   \<and> take 3 [1, 2, 3, 7, 8, 9] = [1, 2, 3 :: int]
   \<and> length [1, 2, 3, 7, 8, 9 :: int] = 3 + 3 * card {''S2''}"
proof -
  note r = conjunct1 [OF column_plan_shape
      [of scenario_header "{''S2''}" False "[1, 2, 3, 7, 8, 9]" "{''S2''}" "{''S1'', ''S3''}"]]
  note g = mp [OF mp [OF r scenario_distinct] scenario_keep]
  show ?thesis
  proof (intro conjI)
    show "distinct (sample_ids scenario_header)" by (rule scenario_distinct)
    show "find_columns_to_keep scenario_header {''S2''} False =
            Inr ([1, 2, 3, 7, 8, 9], {''S2''}, {''S1'', ''S3''})" by (rule scenario_keep)
    show "take 3 [1, 2, 3, 7, 8, 9] = [1, 2, 3 :: int]" by (rule conjunct1 [OF g])
    show "length [1, 2, 3, 7, 8, 9 :: int] = 3 + 3 * card {''S2''}" by (rule conjunct2 [OF g])
  qed
qed

text \<open>
  C2. The specification says that a trailing partial sample group is ignored. The loop does not
  ignore it: on a header of five fields (three marker fields, then S1 twice) it selects
  S1 and returns the columns 4, 5, 6, the last of which is beyond the five fields of the
  header, while line 195 of the same program counts 0 samples for this header.
\<close>

theorem partial_group_is_selected:
  "length (split_sep TAB partial_header) = 5
   \<and> (int (length (split_sep TAB partial_header)) - 3) div 3 = 0
   \<and> find_columns_to_keep partial_header {''S1''} False =
        Inr ([1, 2, 3, 4, 5, 6], {''S1''}, {})"
  unfolding partial_header_def by code_simp

text \<open>
  C4. The specification says that samples_kept and samples_removed partition the samples
  of the header and that their sizes add up to the number N of samples in it. On the
  header of five fields (three marker fields, then S1 twice) the sample IDs the loop reads
  are pairwise distinct and the requested set {S1} is not empty, the header holds no
  complete sample group, so that N = (5 - 3) // 3 = 0 as line 195 counts, and yet
  \<open>find_columns_to_keep\<close> returns samples_kept = {S1} and samples_removed = {}, whose sizes
  add up to 1 and whose union is not empty. This is the defect of C2 seen through the
  counts: the loop takes the trailing partial group for a sample.
\<close>

theorem partial_group_is_counted:
  "distinct (sample_ids partial_header)
   \<and> (int (length (split_sep TAB partial_header)) - 3) div 3 = 0
   \<and> find_columns_to_keep partial_header {''S1''} False =
        Inr ([1, 2, 3, 4, 5, 6], {''S1''}, {})
   \<and> card {''S1''} + card ({} :: string set) = 1
   \<and> {''S1''} \<union> ({} :: string set) \<noteq> {}"
proof (intro conjI)
  show "distinct (sample_ids partial_header)"
    unfolding partial_header_def by code_simp
  show "(int (length (split_sep TAB partial_header)) - 3) div 3 = 0"
    unfolding partial_header_def by code_simp
  show "find_columns_to_keep partial_header {''S1''} False =
          Inr ([1, 2, 3, 4, 5, 6], {''S1''}, {})"
    unfolding partial_header_def by code_simp
  show "card {''S1''} + card ({} :: string set) = 1"
    by simp
  show "{''S1''} \<union> ({} :: string set) \<noteq> {}"
    by simp
qed

text \<open>
  Away from that defect the partition holds. When the sample IDs the loop reads are
  pairwise distinct and \<open>find_columns_to_keep\<close> returns, samples_kept and samples_removed
  are disjoint, their union is the set of those IDs, and their sizes add up to the number
  of those IDs; for a header of at least three fields whose sample-field count is a
  multiple of 3, that number is the count (len(fields) - 3) // 3 of line 195.
\<close>

lemma kept_removed_partition:
  "distinct (sample_ids h) \<Longrightarrow>
   find_columns_to_keep h S rm = Inr (cols, kept, removed) \<Longrightarrow>
     kept \<inter> removed = {}
     \<and> kept \<union> removed = set (sample_ids h)
     \<and> card kept + card removed = length (sample_ids h)
     \<and> (3 \<le> length (split_sep TAB h) \<and> (length (split_sep TAB h) - 3) mod 3 = 0 \<longrightarrow>
          int (card kept + card removed) = (int (length (split_sep TAB h)) - 3) div 3)"
proof -
  assume d: "distinct (sample_ids h)"
    and r: "find_columns_to_keep h S rm = Inr (cols, kept, removed)"
  from r have kept: "kept = set (filter (keeps S rm) (sample_ids h))"
    and removed: "removed = set (sample_ids h) - kept"
    by (auto simp add: find_columns_to_keep_eq simp del: set_filter split: if_splits)
  have sub: "kept \<subseteq> set (sample_ids h)" unfolding kept by auto
  have disj: "kept \<inter> removed = {}" unfolding removed by blast
  have un: "kept \<union> removed = set (sample_ids h)" unfolding removed using sub by blast
  have fk: "finite kept" using sub by (rule finite_subset) simp
  have fr: "finite removed" unfolding removed by simp
  have "card kept + card removed = card (kept \<union> removed)"
    by (rule card_Un_disjoint [symmetric]) (rule fk, rule fr, rule disj)
  also have "\<dots> = length (sample_ids h)"
    unfolding un using d by (simp add: distinct_card)
  finally have total: "card kept + card removed = length (sample_ids h)" .
  have wf: "3 \<le> length (split_sep TAB h) \<and> (length (split_sep TAB h) - 3) mod 3 = 0 \<longrightarrow>
            int (card kept + card removed) = (int (length (split_sep TAB h)) - 3) div 3"
  proof
    assume a: "3 \<le> length (split_sep TAB h) \<and> (length (split_sep TAB h) - 3) mod 3 = 0"
    have "int (length (sample_ids h)) = (int (length (split_sep TAB h)) - 3) div 3"
      by (rule sample_count_well_formed [OF conjunct1 [OF a] conjunct2 [OF a]])
    then show "int (card kept + card removed) = (int (length (split_sep TAB h)) - 3) div 3"
      by (simp only: total)
  qed
  show ?thesis
    by (intro conjI) (rule disj, rule un, rule total, rule wf)
qed



text \<open>
  C10. Whenever \<open>find_columns_to_keep\<close> returns, the column list is strictly increasing,
  hence without repetition, and it is 1, 2, 3 followed by the three columns of each kept
  sample position, in header order.
\<close>

theorem columns_strictly_increasing:
  "find_columns_to_keep h S rm = Inr (cols, kept, removed) \<Longrightarrow>
     sorted_wrt (<) cols \<and> distinct cols
     \<and> cols = [1, 2, 3] @ column_triples (filter (\<lambda>i. split_sep TAB h ! i \<in> kept)
                  (py_range 3 (length (split_sep TAB h)) 3))"
proof -
  let ?flds = "split_sep TAB h"
  let ?rng = "py_range 3 (length ?flds) 3"
  let ?idxs = "filter (\<lambda>i. keeps S rm (?flds ! i)) ?rng"
  assume r: "find_columns_to_keep h S rm = Inr (cols, kept, removed)"
  then have cols: "cols = [1, 2, 3] @ column_triples ?idxs"
    and kept: "kept = set (filter (keeps S rm) (sample_ids h))"
    by (simp_all add: find_columns_to_keep_eq split: if_splits)
  have spaced: "sorted_wrt (\<lambda>a b. a + 3 \<le> b) ?idxs"
    by (rule sorted_wrt_filter) (rule py_range_spaced)
  have inc: "sorted_wrt (<) (column_triples ?idxs)"
    by (rule column_triples_increasing [OF spaced])
  have above: "\<forall>c \<in> set (column_triples ?idxs). 3 < c"
  proof
    fix c assume "c \<in> set (column_triples ?idxs)"
    then obtain i where "i \<in> set ?idxs" "int i < c" using column_triples_mem by blast
    moreover from this have "3 \<le> i" using py_range_bounds by auto
    ultimately show "3 < c" by simp
  qed
  have sorted: "sorted_wrt (<) cols"
    unfolding cols using inc above by (auto simp: sorted_wrt_append)
  have same: "?idxs = filter (\<lambda>i. ?flds ! i \<in> kept) ?rng"
    unfolding kept by (rule filter_cong) (auto simp: sample_ids_def Let_def)
  from sorted have "distinct cols"
    by (simp add: strict_sorted_iff)
  with sorted cols same show ?thesis by simp
qed

theorem columns_strictly_increasing_witness:
  "find_columns_to_keep scenario_header {''S2''} True =
     Inr ([1, 2, 3, 4, 5, 6, 10, 11, 12], {''S1'', ''S3''}, {''S2''})
   \<and> sorted_wrt (<) [1, 2, 3, 4, 5, 6, 10, 11, 12 :: int]
   \<and> distinct [1, 2, 3, 4, 5, 6, 10, 11, 12 :: int]"
proof -
  note r = columns_strictly_increasing [OF scenario_remove]
  from r have a: "sorted_wrt (<) [1, 2, 3, 4, 5, 6, 10, 11, 12 :: int]"
    by (rule conjunct1)
  from r have b: "distinct [1, 2, 3, 4, 5, 6, 10, 11, 12 :: int]"
    by (rule conjunct1 [OF conjunct2])
  show ?thesis
  proof (intro conjI)
    show "find_columns_to_keep scenario_header {''S2''} True =
            Inr ([1, 2, 3, 4, 5, 6, 10, 11, 12], {''S1'', ''S3''}, {''S2''})"
      by (rule scenario_remove)
    show "sorted_wrt (<) [1, 2, 3, 4, 5, 6, 10, 11, 12 :: int]" by (rule a)
    show "distinct [1, 2, 3, 4, 5, 6, 10, 11, 12 :: int]" by (rule b)
  qed
qed

section \<open>Properties of the run\<close>

lemma subset_beagle_after_selection:
  assumes "path_exists (files e) inp" and "read_sample_list e lst = Inr S"
    and "read_header e inp = Inr h"
    and "find_columns_to_keep h S rm = Inr (cols, kept, removed)"
  shows "subset_beagle e inp lst out rm =
     (case generate_awk_command e cols inp (effective_output_file out) True of
        Inl err \<Rightarrow> Inl err
      | Inr (cmd, has_pv) \<Rightarrow>
          (case run_transform e cmd (effective_output_file out) of
             Inl err \<Rightarrow> Inl err
           | Inr (n_bytes, files') \<Rightarrow>
               Inr (make_report (effective_output_file out) S h rm cols kept removed cmd
                      n_bytes files')))"
  using assms by (simp add: subset_beagle_def Let_def)

lemma subset_beagle_success:
  assumes "path_exists (files e) inp" and "read_sample_list e lst = Inr S"
    and "read_header e inp = Inr h"
    and "find_columns_to_keep h S rm = Inr (cols, kept, removed)"
    and "generate_awk_command e cols inp (effective_output_file out) True = Inr (cmd, pv)"
    and "run_transform e cmd (effective_output_file out) = Inr (n_bytes, files')"
  shows "subset_beagle e inp lst out rm =
           Inr (make_report (effective_output_file out) S h rm cols kept removed cmd
                  n_bytes files')"
  by (simp add: subset_beagle_after_selection [OF assms(1-4)] assms(5,6))

lemma subset_beagle_transform_failure:
  assumes "path_exists (files e) inp" and "read_sample_list e lst = Inr S"
    and "read_header e inp = Inr h"
    and "find_columns_to_keep h S rm = Inr (cols, kept, removed)"
    and "generate_awk_command e cols inp (effective_output_file out) True = Inr (cmd, pv)"
    and "run_transform e cmd (effective_output_file out) = Inl err"
  shows "subset_beagle e inp lst out rm = Inl err"
  by (simp add: subset_beagle_after_selection [OF assms(1-4)] assms(5,6))


lemma subset_beagle_list_failure:
  assumes "path_exists (files e) inp" and "read_sample_list e lst = Inl err"
  shows "subset_beagle e inp lst out rm = Inl err"
  using assms by (simp add: subset_beagle_def Let_def)

lemma run_transform_zero:
  assumes "run_command e cmd (files e) = Some (0, files')"
  shows "run_transform e cmd out =
           (case files' out of None \<Rightarrow> Inl OutputNotCreated
            | Some content \<Rightarrow> Inr (length content, files'))"
  using assms by (simp add: run_transform_def path_exists_def getsize_def split: option.splits)

lemma run_transform_nonzero:
  assumes "run_command e cmd (files e) = Some (rc, files')" and "rc \<noteq> 0"
  shows "run_transform e cmd out = Inl (TransformFailed rc)"
  using assms by (simp add: run_transform_def)

lemma fold_add_sample_line:
  "fold add_sample_line ls A = A \<union> set (filter (\<lambda>s. s \<noteq> []) (map py_strip ls))"
  by (induction ls arbitrary: A) (auto simp: add_sample_line_def Let_def)

lemma read_sample_list_eq:
  assumes "files e p = Some content" and "\<not> read_fails e p"
  shows "read_sample_list e p =
           (if set (trimmed_lines content) = {} then Inl EmptySampleList
            else Inr (set (trimmed_lines content)))"
  using assms
  by (simp add: read_sample_list_def Let_def fold_add_sample_line trimmed_lines_def
        del: set_filter)






lemma example_input_exists: "path_exists (files (example_env list_text out_text)) ''in.beagle''"
  by (simp add: example_env_def path_exists_def)

lemma example_header:
  "read_header (example_env list_text out_text) ''in.beagle'' = Inr scenario_header"
  unfolding scenario_header_def by code_simp



text \<open>
  C3. The specification says that a zero-byte output file is treated as a failure. It is not: when
  the pipeline returns 0 and leaves an empty output file, the run succeeds and reports the
  size 0.
\<close>

theorem zero_byte_output_is_success:
  "exit_code (subset_beagle (example_env (''S2'' @ [LF]) []) ''in.beagle'' ''list.txt''
      ''out.beagle'' False) = 0
   \<and> map_sum id output_size (subset_beagle (example_env (''S2'' @ [LF]) []) ''in.beagle''
        ''list.txt'' ''out.beagle'' False) = Inr 0"
  by code_simp

text \<open>
  C3, as the program has it. After the pipeline has returned 0, the run succeeds exactly
  when the output file exists: a missing output file is the failure "Output file was not
  created", and an existing one is a success whose reported size is the length of the
  file, whatever that length is.
\<close>

theorem success_iff_output_exists:
  assumes "path_exists (files e) inp" and "read_sample_list e lst = Inr S"
    and "read_header e inp = Inr h"
    and "find_columns_to_keep h S rm = Inr (cols, kept, removed)"
    and "generate_awk_command e cols inp (effective_output_file out) True = Inr (cmd, pv)"
    and "run_command e cmd (files e) = Some (0, files')"
  shows "(exit_code (subset_beagle e inp lst out rm) = 0 \<longleftrightarrow>
            path_exists files' (effective_output_file out))
     \<and> (files' (effective_output_file out) = None \<longrightarrow>
            subset_beagle e inp lst out rm = Inl OutputNotCreated)
     \<and> (files' (effective_output_file out) = Some content \<longrightarrow>
            map_sum id output_size (subset_beagle e inp lst out rm) = Inr (length content))"
proof (cases "files' (effective_output_file out)")
  case None
  then have "run_transform e cmd (effective_output_file out) = Inl OutputNotCreated"
    by (simp add: run_transform_zero [OF assms(6)])
  then have "subset_beagle e inp lst out rm = Inl OutputNotCreated"
    by (rule subset_beagle_transform_failure [OF assms(1-5)])
  with None show ?thesis
    by (simp add: exit_code_def path_exists_def)
next
  case (Some c)
  then have "run_transform e cmd (effective_output_file out) = Inr (length c, files')"
    by (simp add: run_transform_zero [OF assms(6)])
  then have "subset_beagle e inp lst out rm =
               Inr (make_report (effective_output_file out) S h rm cols kept removed cmd
                      (length c) files')"
    by (rule subset_beagle_success [OF assms(1-5)])
  with Some show ?thesis
    by (simp add: exit_code_def path_exists_def make_report_def Let_def)
qed

lemma example_list_S2:
  "read_sample_list (example_env (''S2'' @ [LF]) out_text) ''list.txt'' = Inr {''S2''}"
  by code_simp

lemma example_generate:
  "generate_awk_command (example_env list_text out_text) [1, 2, 3, 7, 8, 9] ''in.beagle''
     (effective_output_file ''out'') True = Inr (example_command ''out.beagle'', False)"
  by code_simp

lemma example_run_command:
  "run_command (example_env list_text out_text) cmd (files (example_env list_text out_text)) =
     Some (0, (files (example_env list_text out_text))(''out.beagle'' \<mapsto> out_text))"
  by (simp add: example_env_def)

lemma example_effective: "effective_output_file ''out'' = ''out.beagle''"
  by code_simp

theorem success_iff_output_exists_witness:
  "path_exists (files (example_env (''S2'' @ [LF]) [])) ''in.beagle''
   \<and> read_sample_list (example_env (''S2'' @ [LF]) []) ''list.txt'' = Inr {''S2''}
   \<and> read_header (example_env (''S2'' @ [LF]) []) ''in.beagle'' = Inr scenario_header
   \<and> find_columns_to_keep scenario_header {''S2''} False =
        Inr ([1, 2, 3, 7, 8, 9], {''S2''}, {''S1'', ''S3''})
   \<and> generate_awk_command (example_env (''S2'' @ [LF]) []) [1, 2, 3, 7, 8, 9] ''in.beagle''
        (effective_output_file ''out'') True = Inr (example_command ''out.beagle'', False)
   \<and> run_command (example_env (''S2'' @ [LF]) []) (example_command ''out.beagle'')
        (files (example_env (''S2'' @ [LF]) [])) =
        Some (0, (files (example_env (''S2'' @ [LF]) []))(''out.beagle'' \<mapsto> []))
   \<and> ((files (example_env (''S2'' @ [LF]) []))(''out.beagle'' \<mapsto> []))
        (effective_output_file ''out'') = Some []
   \<and> map_sum id output_size
        (subset_beagle (example_env (''S2'' @ [LF]) []) ''in.beagle'' ''list.txt'' ''out'' False) =
        Inr (length ([] :: string))"
proof -
  have there: "((files (example_env (''S2'' @ [LF]) []))(''out.beagle'' \<mapsto> []))
                 (effective_output_file ''out'') = Some []"
    by (simp add: example_effective)
  note r = success_iff_output_exists [OF example_input_exists example_list_S2 example_header
      scenario_keep example_generate example_run_command, of "[]"]
  have size: "map_sum id output_size
        (subset_beagle (example_env (''S2'' @ [LF]) []) ''in.beagle'' ''list.txt'' ''out'' False) =
        Inr (length ([] :: string))"
    by (rule mp [OF conjunct2 [OF conjunct2 [OF r]] there])
  show ?thesis
    by (intro conjI) (rule example_input_exists, rule example_list_S2, rule example_header,
      rule scenario_keep, rule example_generate, rule example_run_command, rule there, rule size)
qed

lemma selection_result_sets:
  assumes "find_columns_to_keep h S rm = Inr (cols, kept, removed)"
  shows "kept = set (filter (keeps S rm) (sample_ids h))"
    and "removed = set (sample_ids h) - kept"
  using assms
  by (auto simp add: find_columns_to_keep_eq simp del: set_filter split: if_splits)

lemma not_found_samples_eq:
  assumes "find_columns_to_keep h S rm = Inr (cols, kept, removed)"
  shows "not_found_samples rm S kept removed = S - (kept \<union> removed)"
proof (cases rm)
  case True
  then show ?thesis by (auto simp: not_found_samples_def)
next
  case False
  have "S \<inter> removed = {}"
    unfolding selection_result_sets [OF assms] using False by (auto simp: keeps_def)
  with False show ?thesis by (auto simp: not_found_samples_def)
qed

lemma not_found_samples_absent:
  assumes "find_columns_to_keep h S rm = Inr (cols, kept, removed)"
  shows "not_found_samples rm S kept removed \<inter> set (sample_ids h) = {}"
proof -
  have "kept \<union> removed = set (sample_ids h)"
    unfolding selection_result_sets [OF assms] by auto
  then show ?thesis
    unfolding not_found_samples_eq [OF assms] by blast
qed

text \<open>
  C7. Once the selection has returned, in either mode the set of requested samples that
  the warning reports is the requested set minus kept and removed samples and contains no
  sample ID of the header. Whether that set is empty or not, the run then builds the
  pipeline command and runs it: the result of the run is the failure of
  \<open>generate_awk_command\<close> or of \<open>run_transform\<close> when one of them fails, and otherwise the
  report made from the command, the size of the output file and the files the pipeline
  left. A non-empty set only shows as the warning in that report.
\<close>

theorem absent_samples_only_warn:
  assumes "path_exists (files e) inp" and "read_sample_list e lst = Inr S"
    and "read_header e inp = Inr h"
    and "find_columns_to_keep h S rm = Inr (cols, kept, removed)"
  shows "not_found_samples rm S kept removed = S - (kept \<union> removed)
     \<and> not_found_samples rm S kept removed \<inter> set (sample_ids h) = {}
     \<and> subset_beagle e inp lst out rm =
          (case generate_awk_command e cols inp (effective_output_file out) True of
             Inl err \<Rightarrow> Inl err
           | Inr (cmd, has_pv) \<Rightarrow>
               (case run_transform e cmd (effective_output_file out) of
                  Inl err \<Rightarrow> Inl err
                | Inr (n_bytes, files') \<Rightarrow>
                    Inr (make_report (effective_output_file out) S h rm cols kept removed cmd
                           n_bytes files')))
     \<and> (generate_awk_command e cols inp (effective_output_file out) True = Inr (cmd, pv) \<longrightarrow>
          run_transform e cmd (effective_output_file out) = Inr (n_bytes, files') \<longrightarrow>
            subset_beagle e inp lst out rm =
              Inr (make_report (effective_output_file out) S h rm cols kept removed cmd
                     n_bytes files')
            \<and> exit_code (subset_beagle e inp lst out rm) = 0
            \<and> map_sum id command (subset_beagle e inp lst out rm) = Inr cmd
            \<and> map_sum id output_size (subset_beagle e inp lst out rm) = Inr n_bytes
            \<and> map_sum id not_found_warning (subset_beagle e inp lst out rm) =
                 Inr (if S - (kept \<union> removed) \<noteq> {} then Some (S - (kept \<union> removed)) else None))
     \<and> (generate_awk_command e cols inp (effective_output_file out) True = Inr (cmd, pv) \<longrightarrow>
          run_transform e cmd (effective_output_file out) = Inl err \<longrightarrow>
            subset_beagle e inp lst out rm = Inl err)
     \<and> (subset_beagle e inp lst out rm = Inl err \<longrightarrow>
          generate_awk_command e cols inp (effective_output_file out) True = Inl err
          \<or> (\<exists>cmd' pv'. generate_awk_command e cols inp (effective_output_file out) True
                           = Inr (cmd', pv')
                \<and> run_transform e cmd' (effective_output_file out) = Inl err))"
proof (intro conjI)
  show eq: "not_found_samples rm S kept removed = S - (kept \<union> removed)"
    by (rule not_found_samples_eq [OF assms(4)])
  show "not_found_samples rm S kept removed \<inter> set (sample_ids h) = {}"
    by (rule not_found_samples_absent [OF assms(4)])
  show "subset_beagle e inp lst out rm =
          (case generate_awk_command e cols inp (effective_output_file out) True of
             Inl err \<Rightarrow> Inl err
           | Inr (cmd, has_pv) \<Rightarrow>
               (case run_transform e cmd (effective_output_file out) of
                  Inl err \<Rightarrow> Inl err
                | Inr (n_bytes, files') \<Rightarrow>
                    Inr (make_report (effective_output_file out) S h rm cols kept removed cmd
                           n_bytes files')))"
    by (rule subset_beagle_after_selection [OF assms])
  show "generate_awk_command e cols inp (effective_output_file out) True = Inr (cmd, pv) \<longrightarrow>
          run_transform e cmd (effective_output_file out) = Inr (n_bytes, files') \<longrightarrow>
            subset_beagle e inp lst out rm =
              Inr (make_report (effective_output_file out) S h rm cols kept removed cmd
                     n_bytes files')
            \<and> exit_code (subset_beagle e inp lst out rm) = 0
            \<and> map_sum id command (subset_beagle e inp lst out rm) = Inr cmd
            \<and> map_sum id output_size (subset_beagle e inp lst out rm) = Inr n_bytes
            \<and> map_sum id not_found_warning (subset_beagle e inp lst out rm) =
                 Inr (if S - (kept \<union> removed) \<noteq> {} then Some (S - (kept \<union> removed)) else None)"
  proof (intro impI)
    assume g: "generate_awk_command e cols inp (effective_output_file out) True = Inr (cmd, pv)"
      and t: "run_transform e cmd (effective_output_file out) = Inr (n_bytes, files')"
    have r: "subset_beagle e inp lst out rm =
            Inr (make_report (effective_output_file out) S h rm cols kept removed cmd
                   n_bytes files')"
      by (rule subset_beagle_success [OF assms g t])
    show "subset_beagle e inp lst out rm =
              Inr (make_report (effective_output_file out) S h rm cols kept removed cmd
                     n_bytes files')
            \<and> exit_code (subset_beagle e inp lst out rm) = 0
            \<and> map_sum id command (subset_beagle e inp lst out rm) = Inr cmd
            \<and> map_sum id output_size (subset_beagle e inp lst out rm) = Inr n_bytes
            \<and> map_sum id not_found_warning (subset_beagle e inp lst out rm) =
                 Inr (if S - (kept \<union> removed) \<noteq> {} then Some (S - (kept \<union> removed)) else None)"
      unfolding r by (simp add: exit_code_def make_report_def Let_def eq)
  qed
  show "generate_awk_command e cols inp (effective_output_file out) True = Inr (cmd, pv) \<longrightarrow>
          run_transform e cmd (effective_output_file out) = Inl err \<longrightarrow>
            subset_beagle e inp lst out rm = Inl err"
  proof (intro impI)
    assume g: "generate_awk_command e cols inp (effective_output_file out) True = Inr (cmd, pv)"
      and t: "run_transform e cmd (effective_output_file out) = Inl err"
    show "subset_beagle e inp lst out rm = Inl err"
      by (rule subset_beagle_transform_failure [OF assms g t])
  qed
  show "subset_beagle e inp lst out rm = Inl err \<longrightarrow>
          generate_awk_command e cols inp (effective_output_file out) True = Inl err
          \<or> (\<exists>cmd' pv'. generate_awk_command e cols inp (effective_output_file out) True
                           = Inr (cmd', pv')
                \<and> run_transform e cmd' (effective_output_file out) = Inl err)"
    unfolding subset_beagle_after_selection [OF assms]
    by (auto split: sum.splits prod.splits)
qed

lemma example_list_S2_S9:
  "read_sample_list (example_env (''S2'' @ [LF] @ ''S9'' @ [LF] @ ''S2'') out_text) ''list.txt'' =
     Inr {''S2'', ''S9''}"
  by code_simp

lemma scenario_keep_S2_S9:
  "find_columns_to_keep scenario_header {''S2'', ''S9''} False =
     Inr ([1, 2, 3, 7, 8, 9], {''S2''}, {''S1'', ''S3''})"
  unfolding scenario_header_def by code_simp

lemma example_run_transform:
  "run_transform (example_env list_text out_text) cmd ''out.beagle'' =
     Inr (length out_text, (files (example_env list_text out_text))(''out.beagle'' \<mapsto> out_text))"
  by (simp add: run_transform_zero [OF example_run_command])

theorem absent_samples_only_warn_witness:
  "path_exists (files (example_env (''S2'' @ [LF] @ ''S9'' @ [LF] @ ''S2'') ''x'')) ''in.beagle''
   \<and> read_sample_list (example_env (''S2'' @ [LF] @ ''S9'' @ [LF] @ ''S2'') ''x'') ''list.txt'' =
        Inr {''S2'', ''S9''}
   \<and> read_header (example_env (''S2'' @ [LF] @ ''S9'' @ [LF] @ ''S2'') ''x'') ''in.beagle'' =
        Inr scenario_header
   \<and> find_columns_to_keep scenario_header {''S2'', ''S9''} False =
        Inr ([1, 2, 3, 7, 8, 9], {''S2''}, {''S1'', ''S3''})
   \<and> generate_awk_command (example_env (''S2'' @ [LF] @ ''S9'' @ [LF] @ ''S2'') ''x'')
        [1, 2, 3, 7, 8, 9] ''in.beagle'' (effective_output_file ''out'') True =
        Inr (example_command ''out.beagle'', False)
   \<and> run_transform (example_env (''S2'' @ [LF] @ ''S9'' @ [LF] @ ''S2'') ''x'')
        (example_command ''out.beagle'') (effective_output_file ''out'') =
        Inr (length ''x'',
             (files (example_env (''S2'' @ [LF] @ ''S9'' @ [LF] @ ''S2'') ''x''))
               (''out.beagle'' \<mapsto> ''x''))
   \<and> not_found_samples False {''S2'', ''S9''} {''S2''} {''S1'', ''S3''} =
        {''S2'', ''S9''} - ({''S2''} \<union> {''S1'', ''S3''})
   \<and> {''S2'', ''S9''} - ({''S2''} \<union> {''S1'', ''S3''}) = {''S9''}
   \<and> exit_code (subset_beagle (example_env (''S2'' @ [LF] @ ''S9'' @ [LF] @ ''S2'') ''x'')
         ''in.beagle'' ''list.txt'' ''out'' False) = 0
   \<and> map_sum id command
         (subset_beagle (example_env (''S2'' @ [LF] @ ''S9'' @ [LF] @ ''S2'') ''x'')
            ''in.beagle'' ''list.txt'' ''out'' False) = Inr (example_command ''out.beagle'')
   \<and> map_sum id output_size
         (subset_beagle (example_env (''S2'' @ [LF] @ ''S9'' @ [LF] @ ''S2'') ''x'')
            ''in.beagle'' ''list.txt'' ''out'' False) = Inr (length ''x'')
   \<and> map_sum id not_found_warning
         (subset_beagle (example_env (''S2'' @ [LF] @ ''S9'' @ [LF] @ ''S2'') ''x'')
            ''in.beagle'' ''list.txt'' ''out'' False) =
        Inr (if {''S2'', ''S9''} - ({''S2''} \<union> {''S1'', ''S3''}) \<noteq> {}
             then Some ({''S2'', ''S9''} - ({''S2''} \<union> {''S1'', ''S3''})) else None)"
proof -
  have g: "generate_awk_command (example_env (''S2'' @ [LF] @ ''S9'' @ [LF] @ ''S2'') ''x'')
             [1, 2, 3, 7, 8, 9] ''in.beagle'' (effective_output_file ''out'') True =
           Inr (example_command ''out.beagle'', False)"
    by (rule example_generate)
  have t: "run_transform (example_env (''S2'' @ [LF] @ ''S9'' @ [LF] @ ''S2'') ''x'')
             (example_command ''out.beagle'') (effective_output_file ''out'') =
           Inr (length ''x'',
                (files (example_env (''S2'' @ [LF] @ ''S9'' @ [LF] @ ''S2'') ''x''))
                  (''out.beagle'' \<mapsto> ''x''))"
    unfolding example_effective by (rule example_run_transform)
  have s9: "{''S2'', ''S9''} - ({''S2''} \<union> {''S1'', ''S3''}) = {''S9''}"
    by code_simp
  note r = absent_samples_only_warn [OF example_input_exists example_list_S2_S9 example_header
      scenario_keep_S2_S9]
  note run = mp [OF mp [OF conjunct1 [OF conjunct2 [OF conjunct2 [OF conjunct2 [OF r]]]] g] t]
  note run2 = conjunct2 [OF run]
  note run3 = conjunct2 [OF run2]
  note run4 = conjunct2 [OF run3]
  show ?thesis
    by (intro conjI) (rule example_input_exists, rule example_list_S2_S9, rule example_header,
      rule scenario_keep_S2_S9, rule g, rule t, rule conjunct1 [OF r], rule s9,
      rule conjunct1 [OF run2], rule conjunct1 [OF run3], rule conjunct1 [OF run4],
      rule conjunct2 [OF run4])
qed

lemma trimmed_lines_empty_read:
  assumes "files e p = Some content" and "\<not> read_fails e p"
    and "set (trimmed_lines content) = {}"
  shows "read_sample_list e p = Inl EmptySampleList"
  by (simp add: read_sample_list_eq [OF assms(1,2)] assms(3))

text \<open>
  C8. \<open>read_sample_list\<close> on a readable file returns the set of its whitespace-trimmed
  non-blank lines, and fails with EmptySampleList when there is none. Two files with the
  same set of trimmed non-blank lines give the same result, so repeated lines change
  nothing downstream. When no entry survives, the run fails with EmptySampleList
  whatever the input file holds, even when the input file cannot be read: the header is
  read only after the sample list.
\<close>

theorem sample_list_is_set_of_trimmed_lines:
  "(files e p = Some content \<longrightarrow> \<not> read_fails e p \<longrightarrow>
      read_sample_list e p =
        (if set (trimmed_lines content) = {} then Inl EmptySampleList
         else Inr (set (trimmed_lines content))))
   \<and> (files e p = Some content \<longrightarrow> \<not> read_fails e p \<longrightarrow>
       files e' q = Some content' \<longrightarrow> \<not> read_fails e' q \<longrightarrow>
       set (trimmed_lines content) = set (trimmed_lines content') \<longrightarrow>
         read_sample_list e p = read_sample_list e' q)
   \<and> (path_exists (files e) inp \<longrightarrow> files e p = Some content \<longrightarrow> \<not> read_fails e p \<longrightarrow>
       set (trimmed_lines content) = {} \<longrightarrow>
         subset_beagle e inp p out rm = Inl EmptySampleList)"
proof (intro conjI impI)
  assume a: "files e p = Some content" "\<not> read_fails e p"
  show "read_sample_list e p =
        (if set (trimmed_lines content) = {} then Inl EmptySampleList
         else Inr (set (trimmed_lines content)))"
    by (rule read_sample_list_eq [OF a])
next
  assume a: "files e p = Some content" "\<not> read_fails e p"
    and b: "files e' q = Some content'" "\<not> read_fails e' q"
    and same: "set (trimmed_lines content) = set (trimmed_lines content')"
  show "read_sample_list e p = read_sample_list e' q"
    by (simp only: read_sample_list_eq [OF a] read_sample_list_eq [OF b] same)
next
  assume x: "path_exists (files e) inp"
    and a: "files e p = Some content" "\<not> read_fails e p"
    and none: "set (trimmed_lines content) = {}"
  have "read_sample_list e p = Inl EmptySampleList"
    by (rule trimmed_lines_empty_read [OF a none])
  then show "subset_beagle e inp p out rm = Inl EmptySampleList"
    by (rule subset_beagle_list_failure [OF x])
qed

lemma unreadable_list_file:
  "files (unreadable_input_env list_text) ''list.txt'' = Some list_text
   \<and> \<not> read_fails (unreadable_input_env list_text) ''list.txt''
   \<and> path_exists (files (unreadable_input_env list_text)) ''in.beagle''"
  by (simp add: unreadable_input_env_def path_exists_def)

lemma unreadable_header:
  "read_header (unreadable_input_env list_text) ''in.beagle'' = Inl InputReadError"
  by (simp add: unreadable_input_env_def read_header_def)

lemma blank_lines_trimmed: "set (trimmed_lines ([LF] @ ''  '' @ [LF, TAB, LF])) = {}"
  by code_simp

lemma example_list_file:
  "files (example_env list_text out_text) ''list.txt'' = Some list_text
   \<and> \<not> read_fails (example_env list_text out_text) ''list.txt''"
  by (simp add: example_env_def)

lemma repeated_lines_trimmed:
  "set (trimmed_lines (''S2'' @ [LF] @ ''S2'' @ [CR, LF] @ '' S2 '')) = set (trimmed_lines ''S2'')"
  by code_simp

theorem sample_list_is_set_of_trimmed_lines_witness:
  "files (unreadable_input_env ([LF] @ ''  '' @ [LF, TAB, LF])) ''list.txt'' =
     Some ([LF] @ ''  '' @ [LF, TAB, LF])
   \<and> \<not> read_fails (unreadable_input_env ([LF] @ ''  '' @ [LF, TAB, LF])) ''list.txt''
   \<and> path_exists (files (unreadable_input_env ([LF] @ ''  '' @ [LF, TAB, LF]))) ''in.beagle''
   \<and> set (trimmed_lines ([LF] @ ''  '' @ [LF, TAB, LF])) = {}
   \<and> read_header (unreadable_input_env ([LF] @ ''  '' @ [LF, TAB, LF])) ''in.beagle'' =
        Inl InputReadError
   \<and> subset_beagle (unreadable_input_env ([LF] @ ''  '' @ [LF, TAB, LF])) ''in.beagle''
        ''list.txt'' ''out'' False = Inl EmptySampleList
   \<and> set (trimmed_lines (''S2'' @ [LF] @ ''S2'' @ [CR, LF] @ '' S2 '')) = set (trimmed_lines ''S2'')
   \<and> read_sample_list (example_env (''S2'' @ [LF] @ ''S2'' @ [CR, LF] @ '' S2 '') ''x'')
        ''list.txt'' = read_sample_list (example_env ''S2'' ''x'') ''list.txt''"
proof -
  note u = unreadable_list_file [of "[LF] @ ''  '' @ [LF, TAB, LF]"]
  note r = sample_list_is_set_of_trimmed_lines
    [of "unreadable_input_env ([LF] @ ''  '' @ [LF, TAB, LF])" "''list.txt''"
        "[LF] @ ''  '' @ [LF, TAB, LF]" _ _ _ "''in.beagle''" "''out''" False]
  have fails: "subset_beagle (unreadable_input_env ([LF] @ ''  '' @ [LF, TAB, LF])) ''in.beagle''
        ''list.txt'' ''out'' False = Inl EmptySampleList"
    by (rule mp [OF mp [OF mp [OF mp [OF conjunct2 [OF conjunct2 [OF r]]
          conjunct2 [OF conjunct2 [OF u]]] conjunct1 [OF u]] conjunct1 [OF conjunct2 [OF u]]]
          blank_lines_trimmed])
  note a = example_list_file [of "''S2'' @ [LF] @ ''S2'' @ [CR, LF] @ '' S2 ''" "''x''"]
  note b = example_list_file [of "''S2''" "''x''"]
  note d = sample_list_is_set_of_trimmed_lines
    [of "example_env (''S2'' @ [LF] @ ''S2'' @ [CR, LF] @ '' S2 '') ''x''" "''list.txt''"
        "''S2'' @ [LF] @ ''S2'' @ [CR, LF] @ '' S2 ''" "example_env ''S2'' ''x''" "''list.txt''"
        "''S2''"]
  have same: "read_sample_list (example_env (''S2'' @ [LF] @ ''S2'' @ [CR, LF] @ '' S2 '') ''x'')
        ''list.txt'' = read_sample_list (example_env ''S2'' ''x'') ''list.txt''"
    by (rule mp [OF mp [OF mp [OF mp [OF mp [OF conjunct1 [OF conjunct2 [OF d]]
          conjunct1 [OF a]] conjunct2 [OF a]] conjunct1 [OF b]] conjunct2 [OF b]]
          repeated_lines_trimmed])
  show ?thesis
    by (intro conjI) (rule conjunct1 [OF u], rule conjunct1 [OF conjunct2 [OF u]],
      rule conjunct2 [OF conjunct2 [OF u]], rule blank_lines_trimmed, rule unreadable_header,
      rule fails, rule repeated_lines_trimmed, rule same)
qed

section \<open>Output name and compression\<close>

lemma endswith_iff: "endswith s suf \<longleftrightarrow> (\<exists>p. s = p @ suf)"
proof
  assume "endswith s suf"
  then have "s = take (length s - length suf) s @ suf"
    using append_take_drop_id [of "length s - length suf" s] by (simp add: endswith_def)
  then show "\<exists>p. s = p @ suf" ..
next
  assume "\<exists>p. s = p @ suf"
  then show "endswith s suf" by (auto simp: endswith_def)
qed

lemma endswith_shorter: "endswith s (a @ b) \<Longrightarrow> endswith s b"
proof -
  assume "endswith s (a @ b)"
  then obtain p where "s = p @ a @ b" by (auto simp: endswith_iff)
  then have "s = (p @ a) @ b" by simp
  then show ?thesis unfolding endswith_iff ..
qed

lemma endswith_last: "endswith s suf \<Longrightarrow> suf \<noteq> [] \<Longrightarrow> last s = last suf"
  by (auto simp: endswith_iff)

lemma endswith_beagle_gz_gz: "endswith s ''.beagle.gz'' \<Longrightarrow> endswith s ''.gz''"
proof -
  assume a: "endswith s ''.beagle.gz''"
  have "endswith s (''.beagle'' @ ''.gz'')" using a by simp
  then show ?thesis by (rule endswith_shorter [of s "''.beagle''" "''.gz''"])
qed

lemma endswith_beagle_not_gz: "endswith s ''.beagle'' \<Longrightarrow> \<not> endswith s ''.gz''"
proof
  assume a: "endswith s ''.beagle''" and b: "endswith s ''.gz''"
  have "last s = last ''.beagle''"
    by (rule endswith_last [of s "''.beagle''", OF a]) simp
  moreover have "last s = last ''.gz''"
    by (rule endswith_last [of s "''.gz''", OF b]) simp
  ultimately have "last ''.beagle'' = last ''.gz''" by (rule trans [OF sym])
  then show False by simp
qed

lemma endswith_appended: "endswith (s @ suf) suf"
  by (simp add: endswith_def)

lemma output_is_gz_iff: "output_is_gz p = endswith p ''.gz''"
  by (auto simp: output_is_gz_def dest: endswith_beagle_gz_gz)

lemma effective_output_file_gz:
  "output_is_gz (effective_output_file out) = endswith out ''.beagle.gz''"
proof (cases "endswith out ''.beagle.gz''")
  case True
  then show ?thesis
    by (simp add: effective_output_file_def output_is_gz_iff endswith_beagle_gz_gz)
next
  case False
  have "endswith (effective_output_file out) ''.beagle''"
    using False by (simp add: effective_output_file_def endswith_appended)
  then have "\<not> endswith (effective_output_file out) ''.gz''"
    by (rule endswith_beagle_not_gz)
  with False show ?thesis by (simp add: output_is_gz_iff)
qed

lemma generate_awk_command_eq:
  assumes "generate_awk_command e cols inp p up = Inr (cmd, pv)"
    and "getsize (files e) inp = Some file_size"
  shows "pv = (up \<and> pv_available e)"
    and "cmd = [''bash'', ''-c'',
            (if endswith inp ''.gz'' then ''zcat '' @ inp @ '' | '' @ pv_command pv file_size
             else pv_command pv file_size @ '' '' @ inp)
            @ '' | awk '' @ [SQUOTE] @ awk_script cols @ [SQUOTE]
            @ (if endswith p ''.gz'' then '' | gzip > '' else '' > '') @ p]"
  using assms
  by (simp_all add: generate_awk_command_def Let_def output_is_gz_iff pv_command_def
        split: if_splits)

text \<open>
  C9. The run appends ".beagle" to the output name exactly when the name ends with neither
  ".beagle" nor ".beagle.gz", so the name it uses always ends with one of the two. The
  pipeline compresses its output exactly when the output name it is given ends with
  ".gz" (the second test of line 133 adds nothing), whatever the input is; for the name
  the run uses this is exactly when the caller's name ends with ".beagle.gz".
\<close>

theorem output_suffix_and_compression:
  "effective_output_file out =
     (if endswith out ''.beagle'' \<or> endswith out ''.beagle.gz'' then out else out @ ''.beagle'')
   \<and> (endswith (effective_output_file out) ''.beagle''
        \<or> endswith (effective_output_file out) ''.beagle.gz'')
   \<and> output_is_gz p = endswith p ''.gz''
   \<and> output_is_gz (effective_output_file out) = endswith out ''.beagle.gz''
   \<and> (generate_awk_command e cols inp p up = Inr (cmd, pv) \<longrightarrow>
        getsize (files e) inp = Some file_size \<longrightarrow>
          pv = (up \<and> pv_available e)
          \<and> cmd = [''bash'', ''-c'',
                (if endswith inp ''.gz'' then ''zcat '' @ inp @ '' | '' @ pv_command pv file_size
                 else pv_command pv file_size @ '' '' @ inp)
                @ '' | awk '' @ [SQUOTE] @ awk_script cols @ [SQUOTE]
                @ (if endswith p ''.gz'' then '' | gzip > '' else '' > '') @ p])"
proof (intro conjI)
  show "effective_output_file out =
     (if endswith out ''.beagle'' \<or> endswith out ''.beagle.gz'' then out else out @ ''.beagle'')"
    by (simp add: effective_output_file_def)
  show "endswith (effective_output_file out) ''.beagle''
        \<or> endswith (effective_output_file out) ''.beagle.gz''"
    by (simp add: effective_output_file_def endswith_appended)
  show "output_is_gz p = endswith p ''.gz''"
    by (rule output_is_gz_iff)
  show "output_is_gz (effective_output_file out) = endswith out ''.beagle.gz''"
    by (rule effective_output_file_gz)
  show "generate_awk_command e cols inp p up = Inr (cmd, pv) \<longrightarrow>
        getsize (files e) inp = Some file_size \<longrightarrow>
          pv = (up \<and> pv_available e)
          \<and> cmd = [''bash'', ''-c'',
                (if endswith inp ''.gz'' then ''zcat '' @ inp @ '' | '' @ pv_command pv file_size
                 else pv_command pv file_size @ '' '' @ inp)
                @ '' | awk '' @ [SQUOTE] @ awk_script cols @ [SQUOTE]
                @ (if endswith p ''.gz'' then '' | gzip > '' else '' > '') @ p]"
  proof (intro impI conjI)
    assume g: "generate_awk_command e cols inp p up = Inr (cmd, pv)"
      and s: "getsize (files e) inp = Some file_size"
    show "pv = (up \<and> pv_available e)"
      by (rule generate_awk_command_eq(1) [OF g s])
    show "cmd = [''bash'', ''-c'',
                (if endswith inp ''.gz'' then ''zcat '' @ inp @ '' | '' @ pv_command pv file_size
                 else pv_command pv file_size @ '' '' @ inp)
                @ '' | awk '' @ [SQUOTE] @ awk_script cols @ [SQUOTE]
                @ (if endswith p ''.gz'' then '' | gzip > '' else '' > '') @ p]"
      by (rule generate_awk_command_eq(2) [OF g s])
  qed
qed

lemma example_generate_gz:
  "generate_awk_command (example_env list_text out_text) [1, 2, 3, 7, 8, 9] ''in.beagle''
     ''out.beagle.gz'' True =
   Inr ([''bash'', ''-c'',
         ''cat in.beagle | awk '' @ [SQUOTE] @ awk_script [1, 2, 3, 7, 8, 9] @ [SQUOTE]
           @ '' | gzip > out.beagle.gz''], False)"
  by code_simp

lemma example_getsize:
  "getsize (files (example_env list_text out_text)) ''in.beagle'' =
     Some (length (scenario_header @ [LF]))"
  by (simp add: example_env_def getsize_def)

lemma example_effective_gz: "effective_output_file ''out.gz'' = ''out.gz.beagle''"
  by code_simp

theorem output_suffix_and_compression_witness:
  "generate_awk_command (example_env ''S2'' ''x'') [1, 2, 3, 7, 8, 9] ''in.beagle''
     ''out.beagle.gz'' True =
   Inr ([''bash'', ''-c'',
         ''cat in.beagle | awk '' @ [SQUOTE] @ awk_script [1, 2, 3, 7, 8, 9] @ [SQUOTE]
           @ '' | gzip > out.beagle.gz''], False)
   \<and> getsize (files (example_env ''S2'' ''x'')) ''in.beagle'' =
        Some (length (scenario_header @ [LF]))
   \<and> False = (True \<and> pv_available (example_env ''S2'' ''x''))
   \<and> effective_output_file ''out.gz'' = ''out.gz.beagle''
   \<and> output_is_gz (effective_output_file ''out.gz'') = endswith ''out.gz'' ''.beagle.gz''
   \<and> output_is_gz ''out.beagle.gz'' = endswith ''out.beagle.gz'' ''.gz''
   \<and> endswith ''out.beagle.gz'' ''.gz''"
proof -
  note r = output_suffix_and_compression
    [of "''out.gz''" "''out.beagle.gz''" "example_env ''S2'' ''x''" "[1, 2, 3, 7, 8, 9]"
        "''in.beagle''" True
        "[''bash'', ''-c'',
          ''cat in.beagle | awk '' @ [SQUOTE] @ awk_script [1, 2, 3, 7, 8, 9] @ [SQUOTE]
            @ '' | gzip > out.beagle.gz'']" False "length (scenario_header @ [LF])"]
  note c = mp [OF mp [OF conjunct2 [OF conjunct2 [OF conjunct2 [OF conjunct2 [OF r]]]]
      example_generate_gz] example_getsize]
  have gz: "endswith ''out.beagle.gz'' ''.gz''"
    by code_simp
  show ?thesis
    by (intro conjI) (rule example_generate_gz, rule example_getsize, rule conjunct1 [OF c],
      rule example_effective_gz, rule conjunct1 [OF conjunct2 [OF conjunct2 [OF conjunct2 [OF r]]]],
      rule conjunct1 [OF conjunct2 [OF conjunct2 [OF r]]], rule gz)
qed

end
